theory Spec2Isabelle
  imports Main "HOL-Library.Char_ord" "HOL-Library.List_Lexorder" "HOL-Library.Product_Lexorder"
begin

section \<open>Text and character classes\<close>

text \<open>
  A Python \<^verbatim>\<open>str\<close> is a sequence of code points. The model uses \<^typ>\<open>string\<close>:
  each \<^typ>\<open>char\<close> is one code point in the range U+0000 to U+00FF, and
  \<^const>\<open>length\<close> counts code points as Python's \<^verbatim>\<open>len\<close> does. The character
  classes below are those of CPython's \<^verbatim>\<open>re\<close> module for \<^verbatim>\<open>str\<close> patterns,
  restricted to that range.
\<close>

definition code :: "char \<Rightarrow> nat" where
  "code c = of_char c"

text \<open>\<^verbatim>\<open>\d\<close>: the decimal digits (category Nd).\<close>

definition is_digit :: "char \<Rightarrow> bool" where
  "is_digit c \<longleftrightarrow> 48 \<le> code c \<and> code c \<le> 57"

text \<open>\<^verbatim>\<open>\s\<close> and the characters removed by \<^verbatim>\<open>str.strip()\<close>.\<close>

definition is_space :: "char \<Rightarrow> bool" where
  "is_space c \<longleftrightarrow>
     (9 \<le> code c \<and> code c \<le> 13) \<or> (28 \<le> code c \<and> code c \<le> 32) \<or> code c = 133 \<or> code c = 160"

text \<open>\<^verbatim>\<open>\w\<close>, which decides \<^verbatim>\<open>\b\<close>: alphanumeric characters and the underscore.\<close>

definition is_word :: "char \<Rightarrow> bool" where
  "is_word c \<longleftrightarrow>
     (let n = code c in
      (48 \<le> n \<and> n \<le> 57) \<or> (65 \<le> n \<and> n \<le> 90) \<or> (97 \<le> n \<and> n \<le> 122) \<or> n = 95 \<or>
      n = 170 \<or> n = 178 \<or> n = 179 \<or> n = 181 \<or> n = 185 \<or> n = 186 \<or>
      (188 \<le> n \<and> n \<le> 190) \<or> (192 \<le> n \<and> n \<le> 214) \<or> (216 \<le> n \<and> n \<le> 246) \<or>
      (248 \<le> n \<and> n \<le> 255))"

text \<open>Simple lower-case mapping, as used by case-insensitive matching and \<^verbatim>\<open>str.lower\<close>.\<close>

definition lower :: "char \<Rightarrow> char" where
  "lower c =
     (let n = code c in
      if (65 \<le> n \<and> n \<le> 90) \<or> (192 \<le> n \<and> n \<le> 222 \<and> n \<noteq> 215) then char_of (n + 32) else c)"

section \<open>Regular expressions\<close>

text \<open>
  The constructs of Python's \<^verbatim>\<open>re\<close> syntax that the program's patterns use.
  Repetition is applied to one-character items only, as in every pattern of the source.
\<close>

datatype citem =
    Ch char           \<comment> \<open>a character listed in a class\<close>
  | Rng char char     \<comment> \<open>a range \<^verbatim>\<open>a-z\<close>\<close>
  | Dig               \<comment> \<open>\<^verbatim>\<open>\d\<close>\<close>
  | Spc               \<comment> \<open>\<^verbatim>\<open>\s\<close>\<close>

datatype atom =
    Lit char          \<comment> \<open>a literal character\<close>
  | In "citem list"   \<comment> \<open>a class \<^verbatim>\<open>[...]\<close>, or \<^verbatim>\<open>\d\<close>, \<^verbatim>\<open>\s\<close> alone\<close>
  | Dot               \<comment> \<open>\<^verbatim>\<open>.\<close> under DOTALL\<close>

datatype regex =
    One atom
  | Rep atom nat "nat option"   \<comment> \<open>greedy \<^verbatim>\<open>{m,n}\<close>; \<open>None\<close> is no upper bound\<close>
  | Cat "regex list"
  | Or "regex list"
  | Opt regex                   \<comment> \<open>greedy \<^verbatim>\<open>?\<close>\<close>
  | WordB                       \<comment> \<open>\<^verbatim>\<open>\b\<close>\<close>
  | Behind atom                 \<comment> \<open>\<^verbatim>\<open>(?<=x)\<close> for a one-character \<open>x\<close>\<close>
  | Grp string regex            \<comment> \<open>a capturing group\<close>

fun citem_ok :: "bool \<Rightarrow> citem \<Rightarrow> char \<Rightarrow> bool" where
  "citem_ok ic (Ch x) c = (if ic then lower c = lower x else c = x)"
| "citem_ok ic (Rng lo hi) c =
     (if ic then (code lo \<le> code c \<and> code c \<le> code hi) \<or>
                 (\<exists>x \<in> set (map char_of [code lo ..< Suc (code hi)]). lower c = lower (x::char))
      else code lo \<le> code c \<and> code c \<le> code hi)"
| "citem_ok ic Dig c = is_digit c"
| "citem_ok ic Spc c = is_space c"

fun atom_ok :: "bool \<Rightarrow> atom \<Rightarrow> char \<Rightarrow> bool" where
  "atom_ok ic (Lit x) c = (if ic then lower c = lower x else c = x)"
| "atom_ok ic (In items) c = (\<exists>i \<in> set items. citem_ok ic i c)"
| "atom_ok ic Dot c = True"

text \<open>
  A matcher state: the text before the position (reversed), the text after it, and the
  groups captured so far. The matcher returns every way to match, in the order in which a
  backtracking engine tries them, so the head of the list is the match Python reports.
\<close>

type_synonym caps = "(string \<times> string) list"
type_synonym mstate = "string \<times> string \<times> caps"

fun rep :: "(char \<Rightarrow> bool) \<Rightarrow> nat \<Rightarrow> nat option \<Rightarrow> nat \<Rightarrow> string \<Rightarrow> string \<Rightarrow> (string \<times> string) list" where
  "rep p lo hi k bef [] = (if lo \<le> k then [(bef, [])] else [])"
| "rep p lo hi k bef (c # cs) =
     (if p c \<and> (case hi of None \<Rightarrow> True | Some h \<Rightarrow> k < h) then rep p lo hi (Suc k) (c # bef) cs else [])
     @ (if lo \<le> k then [(bef, c # cs)] else [])"

definition at_boundary :: "string \<Rightarrow> string \<Rightarrow> bool" where
  "at_boundary bef aft \<longleftrightarrow>
     (case bef of [] \<Rightarrow> False | b # _ \<Rightarrow> is_word b) \<noteq> (case aft of [] \<Rightarrow> False | a # _ \<Rightarrow> is_word a)"

fun m :: "bool \<Rightarrow> regex \<Rightarrow> mstate \<Rightarrow> mstate list"
and m_cat :: "bool \<Rightarrow> regex list \<Rightarrow> mstate \<Rightarrow> mstate list"
and m_or :: "bool \<Rightarrow> regex list \<Rightarrow> mstate \<Rightarrow> mstate list" where
  "m ic (One a) (bef, aft, g) =
     (case aft of [] \<Rightarrow> [] | c # cs \<Rightarrow> if atom_ok ic a c then [(c # bef, cs, g)] else [])"
| "m ic (Rep a lo hi) (bef, aft, g) = map (\<lambda>(b, r). (b, r, g)) (rep (atom_ok ic a) lo hi 0 bef aft)"
| "m ic (Cat rs) st = m_cat ic rs st"
| "m ic (Or rs) st = m_or ic rs st"
| "m ic (Opt r) st = m ic r st @ [st]"
| "m ic WordB (bef, aft, g) = (if at_boundary bef aft then [(bef, aft, g)] else [])"
| "m ic (Behind a) (bef, aft, g) =
     (case bef of [] \<Rightarrow> [] | b # _ \<Rightarrow> if atom_ok ic a b then [(bef, aft, g)] else [])"
| "m ic (Grp name r) (bef, aft, g) =
     map (\<lambda>(bef', aft', g'). (bef', aft', g' @ [(name, rev (take (length bef' - length bef) bef'))]))
         (m ic r (bef, aft, g))"
| "m_cat ic [] st = [st]"
| "m_cat ic (r # rs) st = concat (map (m_cat ic rs) (m ic r st))"
| "m_or ic [] st = []"
| "m_or ic (r # rs) st = m ic r st @ m_or ic rs st"

text \<open>The match starting at one position: its length and its groups.\<close>

definition match_at :: "bool \<Rightarrow> regex \<Rightarrow> string \<Rightarrow> string \<Rightarrow> (nat \<times> caps) option" where
  "match_at ic r bef aft =
     (case m ic r (bef, aft, []) of
        [] \<Rightarrow> None
      | (bef', aft', g) # _ \<Rightarrow> Some (length aft - length aft', g))"

text \<open>
  The scan shared by \<^verbatim>\<open>re.finditer\<close>, \<^verbatim>\<open>re.findall\<close>, \<^verbatim>\<open>re.sub\<close> and
  \<^verbatim>\<open>re.split\<close>: the text is cut into the pieces between matches, each followed by its
  match, and the piece after the last match. Every pattern of the source consumes at
  least one character, so a match of length 0 is treated as no match.
\<close>

fun tokens :: "bool \<Rightarrow> regex \<Rightarrow> string \<Rightarrow> string \<Rightarrow> string \<Rightarrow> (string \<times> (string \<times> caps) option) list" where
  "tokens ic r bef gap [] = [(rev gap, None)]"
| "tokens ic r bef gap (c # cs) =
     (case match_at ic r bef (c # cs) of
        None \<Rightarrow> tokens ic r (c # bef) (c # gap) cs
      | Some (0, g) \<Rightarrow> tokens ic r (c # bef) (c # gap) cs
      | Some (Suc n, g) \<Rightarrow>
          (rev gap, Some (c # take n cs, g)) # tokens ic r (rev (take n cs) @ c # bef) [] (drop n cs))"

definition finditer :: "bool \<Rightarrow> regex \<Rightarrow> string \<Rightarrow> (string \<times> caps) list" where
  "finditer ic r s = List.map_filter snd (tokens ic r [] [] s)"

definition findall :: "bool \<Rightarrow> regex \<Rightarrow> string \<Rightarrow> string list" where
  "findall ic r s = map fst (finditer ic r s)"

definition re_sub :: "bool \<Rightarrow> regex \<Rightarrow> (string \<times> caps \<Rightarrow> string) \<Rightarrow> string \<Rightarrow> string" where
  "re_sub ic r repl s =
     concat (map (\<lambda>(gap, mt). gap @ (case mt of None \<Rightarrow> [] | Some x \<Rightarrow> repl x)) (tokens ic r [] [] s))"

definition re_split :: "bool \<Rightarrow> regex \<Rightarrow> string \<Rightarrow> string list" where
  "re_split ic r s = map fst (tokens ic r [] [] s)"

fun search_from :: "bool \<Rightarrow> regex \<Rightarrow> string \<Rightarrow> string \<Rightarrow> (string \<times> caps) option" where
  "search_from ic r bef [] = None"
| "search_from ic r bef (c # cs) =
     (case match_at ic r bef (c # cs) of
        None \<Rightarrow> search_from ic r (c # bef) cs
      | Some (n, g) \<Rightarrow> Some (take n (c # cs), g))"

definition re_search :: "bool \<Rightarrow> regex \<Rightarrow> string \<Rightarrow> (string \<times> caps) option" where
  "re_search ic r s = search_from ic r [] s"

definition re_match :: "bool \<Rightarrow> regex \<Rightarrow> string \<Rightarrow> (string \<times> caps) option" where
  "re_match ic r s = (case match_at ic r [] s of None \<Rightarrow> None | Some (n, g) \<Rightarrow> Some (take n s, g))"

section \<open>Strings\<close>

text \<open>\<^verbatim>\<open>str.strip()\<close>, and \<^verbatim>\<open>str.replace(old, new)\<close> for a non-empty \<open>old\<close>.\<close>

definition strip :: "string \<Rightarrow> string" where
  "strip s = rev (dropWhile is_space (rev (dropWhile is_space s)))"

fun replace :: "string \<Rightarrow> string \<Rightarrow> string \<Rightarrow> string" where
  "replace old new [] = []"
| "replace old new (c # cs) =
     (if old \<noteq> [] \<and> take (length old) (c # cs) = old
      then new @ replace old new (drop (length old - 1) cs)
      else c # replace old new cs)"

definition lit :: "string \<Rightarrow> regex" where
  "lit s = Cat (map (\<lambda>c. One (Lit c)) s)"

definition grp :: "caps \<Rightarrow> string \<Rightarrow> string" where
  "grp g name = (case map_of g name of None \<Rightarrow> [] | Some s \<Rightarrow> s)"

text \<open>\<^verbatim>\<open>int(s)\<close> on a string of decimal digits, surrounding whitespace ignored.\<close>

definition py_int :: "string \<Rightarrow> nat" where
  "py_int s = foldl (\<lambda>a c. 10 * a + (code c - 48)) 0 (strip s)"

section \<open>Dates\<close>

text \<open>
  A naive \<^verbatim>\<open>datetime\<close>: year, month, day, hour, minute, second, microsecond.
  Python compares two of them field by field in this order, which is the lexicographic
  order of the tuple.
\<close>

type_synonym datetime = "nat \<times> nat \<times> nat \<times> nat \<times> nat \<times> nat \<times> nat"

datatype error =
    ValueError
  | HTTPException nat string
  | Raised string    \<comment> \<open>any other exception, with its message\<close>

definition is_leap :: "nat \<Rightarrow> bool" where
  "is_leap y \<longleftrightarrow> y mod 4 = 0 \<and> (y mod 100 \<noteq> 0 \<or> y mod 400 = 0)"

definition days_in_month :: "nat \<Rightarrow> nat \<Rightarrow> nat" where
  "days_in_month y mo =
     (if mo = 2 then (if is_leap y then 29 else 28)
      else if mo = 4 \<or> mo = 6 \<or> mo = 9 \<or> mo = 11 then 30 else 31)"

text \<open>The check of the \<^verbatim>\<open>date\<close> constructor.\<close>

definition valid_date :: "nat \<Rightarrow> nat \<Rightarrow> nat \<Rightarrow> bool" where
  "valid_date y mo d \<longleftrightarrow> 1 \<le> y \<and> y \<le> 9999 \<and> 1 \<le> mo \<and> mo \<le> 12 \<and> 1 \<le> d \<and> d \<le> days_in_month y mo"

definition month_names :: "string list" where
  "month_names = [''January'', ''February'', ''March'', ''April'', ''May'', ''June'', ''July'',
     ''August'', ''September'', ''October'', ''November'', ''December'']"

subsection \<open>\<^verbatim>\<open>strptime\<close>\<close>

text \<open>
  \<^verbatim>\<open>datetime.strptime\<close> in the English locale, after CPython's \<^verbatim>\<open>Lib/_strptime.py\<close>:
  the format is turned into a regular expression (a run of whitespace becomes \<^verbatim>\<open>\s+\<close>,
  a directive becomes its named group, any other character stands for itself), which is
  matched case-insensitively at the start of the data; text left over after the match,
  and a date that does not exist, are a \<^verbatim>\<open>ValueError\<close>. The directives are those of
  the formats in the source.
\<close>

definition strptime_months :: "string list" where
  "strptime_months = [''september'', ''february'', ''november'', ''december'', ''january'', ''october'',
     ''august'', ''march'', ''april'', ''june'', ''july'', ''may'']"

fun directive :: "char \<Rightarrow> regex option" where
  "directive c =
     (if c = CHR ''d'' then Some (Grp ''d'' (Or [
          Cat [One (Lit CHR ''3''), One (In [Rng CHR ''0'' CHR ''1''])],
          Cat [One (In [Rng CHR ''1'' CHR ''2'']), One (In [Dig])],
          Cat [One (Lit CHR ''0''), One (In [Rng CHR ''1'' CHR ''9''])],
          One (In [Rng CHR ''1'' CHR ''9'']),
          Cat [One (Lit CHR '' ''), One (In [Rng CHR ''1'' CHR ''9''])]]))
      else if c = CHR ''m'' then Some (Grp ''m'' (Or [
          Cat [One (Lit CHR ''1''), One (In [Rng CHR ''0'' CHR ''2''])],
          Cat [One (Lit CHR ''0''), One (In [Rng CHR ''1'' CHR ''9''])],
          One (In [Rng CHR ''1'' CHR ''9''])]))
      else if c = CHR ''y'' then Some (Grp ''y'' (Cat [One (In [Dig]), One (In [Dig])]))
      else if c = CHR ''Y'' then
        Some (Grp ''Y'' (Cat [One (In [Dig]), One (In [Dig]), One (In [Dig]), One (In [Dig])]))
      else if c = CHR ''B'' then Some (Grp ''B'' (Or (map lit strptime_months)))
      else None)"

fun format_regex :: "string \<Rightarrow> regex list option" where
  "format_regex [] = Some []"
| "format_regex (c # cs) =
     (if c = CHR ''%'' then
        (case cs of
           [] \<Rightarrow> None
         | d # ds \<Rightarrow>
             (case directive d of
                None \<Rightarrow> None
              | Some r \<Rightarrow> map_option ((#) r) (format_regex ds)))
      else if is_space c then
        (case cs of
           [] \<Rightarrow> Some [Rep (In [Spc]) 1 None]
         | c' # _ \<Rightarrow>
             if is_space c' then format_regex cs
             else map_option ((#) (Rep (In [Spc]) 1 None)) (format_regex cs))
      else map_option ((#) (One (Lit c))) (format_regex cs))"

definition index_of :: "'a list \<Rightarrow> 'a \<Rightarrow> nat" where
  "index_of xs x = length (takeWhile (\<lambda>y. y \<noteq> x) xs)"

definition date_fields :: "caps \<Rightarrow> nat \<times> nat \<times> nat" where
  "date_fields g =
     (let year = (case map_of g ''Y'' of
                    Some s \<Rightarrow> py_int s
                  | None \<Rightarrow>
                      (case map_of g ''y'' of
                         Some s \<Rightarrow> (if py_int s \<le> 68 then py_int s + 2000 else py_int s + 1900)
                       | None \<Rightarrow> 1900));
          month = (case map_of g ''m'' of
                     Some s \<Rightarrow> py_int s
                   | None \<Rightarrow>
                       (case map_of g ''B'' of
                          Some s \<Rightarrow> Suc (index_of (map (map lower) month_names) (map lower s))
                        | None \<Rightarrow> 1));
          day = (case map_of g ''d'' of Some s \<Rightarrow> py_int s | None \<Rightarrow> 1)
      in (year, month, day))"

definition strptime :: "string \<Rightarrow> string \<Rightarrow> error + datetime" where
  "strptime data fmt =
     (case format_regex fmt of
        None \<Rightarrow> Inl ValueError
      | Some rs \<Rightarrow>
          (case m True (Cat rs) ([], data, []) of
             [] \<Rightarrow> Inl ValueError
           | (bef, aft, g) # _ \<Rightarrow>
               if aft \<noteq> [] then Inl ValueError
               else (case date_fields g of
                       (y, mo, d) \<Rightarrow>
                         if valid_date y mo d then Inr (y, mo, d, 0, 0, 0, 0) else Inl ValueError)))"

subsection \<open>\<^verbatim>\<open>strftime\<close>\<close>

definition digit_char :: "nat \<Rightarrow> char" where
  "digit_char n = char_of (48 + n mod 10)"

definition pad2 :: "nat \<Rightarrow> string" where
  "pad2 n = [digit_char (n div 10), digit_char n]"

definition pad4 :: "nat \<Rightarrow> string" where
  "pad4 n = [digit_char (n div 1000), digit_char (n div 100), digit_char (n div 10), digit_char n]"

text \<open>
  The directives of the one format the source writes with, \<^verbatim>\<open>"%d %B %Y"\<close>. The year
  is written with four digits (for a year below 1000 the C library decides the padding;
  the dates this program writes are later than its clock).
\<close>

fun field :: "char \<Rightarrow> datetime \<Rightarrow> string" where
  "field c (y, mo, d, rest) =
     (if c = CHR ''d'' then pad2 d
      else if c = CHR ''B'' then month_names ! (mo - 1)
      else if c = CHR ''Y'' then pad4 y
      else [CHR ''%'', c])"

fun strftime :: "string \<Rightarrow> datetime \<Rightarrow> string" where
  "strftime [] dt = []"
| "strftime [c] dt = [c]"
| "strftime (c # x # xs) dt =
     (if c = CHR ''%'' then field x dt @ strftime xs dt else c # strftime (x # xs) dt)"

section \<open>Future hearing dates\<close>

abbreviation digits :: "nat \<Rightarrow> nat \<Rightarrow> regex" where
  "digits lo hi \<equiv> Rep (In [Dig]) lo (Some hi)"

abbreviation spaces0 :: regex where
  "spaces0 \<equiv> Rep (In [Spc]) 0 None"

abbreviation spaces1 :: regex where
  "spaces1 \<equiv> Rep (In [Spc]) 1 None"

definition month_re :: regex where
  "month_re = Or (map lit month_names)"

definition date_pattern :: regex where
  "date_pattern = Cat [WordB, Or [
     Cat [digits 1 2, spaces0, Opt (Or [lit ''st'', lit ''nd'', lit ''rd'', lit ''th'']), spaces0,
          month_re, Rep (In [Spc, Ch CHR '','']) 0 None, digits 4 4],
     Cat [month_re, spaces0, digits 1 2, Opt (One (Lit CHR '','')), spaces0, digits 4 4],
     Cat [month_re, spaces1, digits 4 4],
     Cat [digits 4 4, One (Lit CHR ''-''), digits 2 2, One (Lit CHR ''-''), digits 2 2],
     Cat [digits 1 2, One (In [Ch CHR ''/'', Ch CHR ''.'', Ch CHR ''-'']), digits 1 2,
          One (In [Ch CHR ''/'', Ch CHR ''.'', Ch CHR ''-'']), digits 2 4]],
     WordB]"

definition formats_to_try :: "string list" where
  "formats_to_try = [''%d %B %Y'', ''%B %d, %Y'', ''%B %Y'',
     ''%Y-%m-%d'', ''%d/%m/%Y'', ''%d-%m-%Y'', ''%d.%m.%Y'',
     ''%d/%m/%y'', ''%d-%m-%y'', ''%d.%m.%y'']"

text \<open>\<^verbatim>\<open>(\d+)(st|nd|rd|th)\<close>, which \<^verbatim>\<open>re.sub\<close> applies without IGNORECASE.\<close>

definition ordinal_re :: regex where
  "ordinal_re = Cat [Grp ''1'' (Rep (In [Dig]) 1 None),
                     Grp ''2'' (Or [lit ''st'', lit ''nd'', lit ''rd'', lit ''th''])]"

text \<open>The inner loop: the first format that parses wins; a \<^verbatim>\<open>ValueError\<close> moves on.\<close>

fun try_formats :: "string \<Rightarrow> string list \<Rightarrow> error + datetime option" where
  "try_formats s [] = Inr None"
| "try_formats s (fmt # fmts) =
     (case strptime s fmt of
        Inr d \<Rightarrow> Inr (Some d)
      | Inl ValueError \<Rightarrow> try_formats s fmts
      | Inl e \<Rightarrow> Inl e)"

definition parse_match :: "string \<Rightarrow> error + datetime option" where
  "parse_match date_str =
     (let cleaned_date_str = re_sub False ordinal_re (\<lambda>(t, g). grp g ''1'') date_str
      in try_formats (replace '','' [] cleaned_date_str) formats_to_try)"

text \<open>The outer loop over the matches, with \<open>dates_found\<close> as accumulator.\<close>

fun collect_dates :: "datetime \<Rightarrow> string list \<Rightarrow> string list \<Rightarrow> error + string list" where
  "collect_dates current_date [] dates_found = Inr dates_found"
| "collect_dates current_date (mt # ms) dates_found =
     (case parse_match (strip mt) of
        Inl e \<Rightarrow> Inl e
      | Inr None \<Rightarrow> collect_dates current_date ms dates_found
      | Inr (Some parsed_date) \<Rightarrow>
          if current_date < parsed_date
          then collect_dates current_date ms (dates_found @ [strftime ''%d %B %Y'' parsed_date])
          else collect_dates current_date ms dates_found)"

text \<open>
  \<open>current_date\<close> is the value of \<^verbatim>\<open>datetime.datetime.now()\<close>. The sorted list of a
  set of strings is the sorted list without duplicates.
\<close>

definition extract_future_dates :: "string \<Rightarrow> datetime \<Rightarrow> error + (string list \<times> nat)" where
  "extract_future_dates text current_date =
     (case collect_dates current_date (findall True date_pattern text) [] of
        Inl e \<Rightarrow> Inl e
      | Inr dates_found \<Rightarrow>
          (let unique_dates = sort (remdups dates_found) in Inr (unique_dates, length unique_dates)))"

section \<open>Case numbers\<close>



section \<open>Case timeline\<close>

definition timeline_date_pattern :: regex where
  "timeline_date_pattern = Cat [WordB, Or [
     Cat [digits 1 2, spaces0, month_re, Opt (One (In [Ch CHR '',''])), spaces0, digits 4 4],
     Cat [month_re, spaces0, digits 1 2, Opt (One (Lit CHR '','')), spaces0, digits 4 4],
     Cat [month_re, spaces0, digits 4 4],
     Cat [digits 4 4, One (Lit CHR ''-''), digits 2 2, One (Lit CHR ''-''), digits 2 2]],
     WordB]"

text \<open>\<^verbatim>\<open>(?<=[.!?])\s+\<close>, the sentence boundary.\<close>

definition sentence_break :: regex where
  "sentence_break = Cat [Behind (In [Ch CHR ''.'', Ch CHR ''!'', Ch CHR ''?'']), spaces1]"

text \<open>\<^verbatim>\<open>(January|...|December)\s+(\d{4})\<close>, matched at the start of the date text.\<close>

definition month_year_re :: regex where
  "month_year_re = Cat [Grp ''1'' month_re, spaces1, Grp ''2'' (digits 4 4)]"

definition timeline_formats :: "string list" where
  "timeline_formats = [''%d %B %Y'', ''%B %d %Y'', ''%B %Y'', ''%Y-%m-%d'']"

datatype status = Completed | Upcoming

type_synonym event = "datetime \<times> string \<times> string \<times> status"

text \<open>The loop over the formats; here every exception moves on to the next format.\<close>

fun try_timeline_formats :: "string \<Rightarrow> string list \<Rightarrow> datetime option" where
  "try_timeline_formats s [] = None"
| "try_timeline_formats s (fmt # fmts) =
     (case strptime s fmt of Inr d \<Rightarrow> Some d | Inl e \<Rightarrow> try_timeline_formats s fmts)"

text \<open>
  The date of one sentence's match: the formats first, then the month and year alone,
  placed on the 15th by a call of \<^verbatim>\<open>strptime\<close> that no handler guards.
\<close>

definition timeline_date :: "string \<Rightarrow> error + datetime option" where
  "timeline_date date_str =
     (case try_timeline_formats (replace '','' [] date_str) timeline_formats of
        Some d \<Rightarrow> Inr (Some d)
      | None \<Rightarrow>
          (case re_match True month_year_re date_str of
             None \<Rightarrow> Inr None
           | Some (t, g) \<Rightarrow>
               (case strptime (''15 '' @ grp g ''1'' @ '' '' @ grp g ''2'') ''%d %B %Y'' of
                  Inl e \<Rightarrow> Inl e
                | Inr d \<Rightarrow> Inr (Some d))))"

definition clean_event :: "string \<Rightarrow> string" where
  "clean_event sentence =
     (let event_text = strip (re_sub False timeline_date_pattern (\<lambda>x. []) sentence);
          event_text = re_sub False spaces1 (\<lambda>x. '' '') event_text
      in strip (replace '' - '' ''; '' event_text))"

fun collect_events :: "datetime \<Rightarrow> string list \<Rightarrow> event list \<Rightarrow> error + event list" where
  "collect_events current_date [] events = Inr events"
| "collect_events current_date (sentence # sentences) events =
     (case re_search True timeline_date_pattern sentence of
        None \<Rightarrow> collect_events current_date sentences events
      | Some (t, g) \<Rightarrow>
          (let date_str = strip t in
           case timeline_date date_str of
             Inl e \<Rightarrow> Inl e
           | Inr None \<Rightarrow> collect_events current_date sentences events
           | Inr (Some parsed_date) \<Rightarrow>
               (let event_text = clean_event sentence in
                if length event_text < 5 then collect_events current_date sentences events
                else collect_events current_date sentences
                       (events @ [(parsed_date, date_str, event_text,
                                   if parsed_date < current_date then Completed else Upcoming)]))))"

text \<open>
  The events in the order of the table: \<^verbatim>\<open>events.sort(key=lambda x: x[0])\<close> is a
  stable sort on the parsed date.
\<close>

definition timeline_events :: "string \<Rightarrow> datetime \<Rightarrow> error + event list" where
  "timeline_events text current_date =
     (case collect_events current_date (re_split False sentence_break text) [] of
        Inl e \<Rightarrow> Inl e
      | Inr events \<Rightarrow> Inr (sort_key fst events))"

definition newline :: char where
  "newline = CHR 0x0A"

text \<open>
  The status cell. Its leading symbol (U+2705, U+23F3) lies outside the code points of
  \<^typ>\<open>char\<close> and is written as its UTF-8 bytes.
\<close>

fun status_text :: "status \<Rightarrow> string" where
  "status_text Completed = [CHR 0xE2, CHR 0x9C, CHR 0x85] @ '' Completed''"
| "status_text Upcoming = [CHR 0xE2, CHR 0x8F, CHR 0xB3] @ '' Upcoming''"

fun table_row :: "event \<Rightarrow> string" where
  "table_row (parsed_date, date_str, event, st) =
     (let short_event = take 120 event @ (if length event > 120 then ''...'' else [])
      in ''| '' @ date_str @ '' | '' @ short_event @ '' | '' @ status_text st @ '' |'' @ [newline])"

definition table_header :: string where
  "table_header = ''| **Date** | **Event** | **Status** |'' @ [newline] @
                  ''|-----------|------------|-------------|'' @ [newline]"

definition generate_case_timeline :: "string \<Rightarrow> datetime \<Rightarrow> error + string" where
  "generate_case_timeline text current_date =
     (case timeline_events text current_date of
        Inl e \<Rightarrow> Inl e
      | Inr events \<Rightarrow>
          if events = [] then Inr ''No timeline events detected.''
          else Inr (table_header @ concat (map table_row events)))"

section \<open>Structured summary\<close>

text \<open>A value returned by \<^verbatim>\<open>json.loads\<close>; an object lists each of its keys once.\<close>

datatype json =
    JNull
  | JBool bool
  | JNum int
  | JStr string
  | JArr "json list"
  | JObj "(string \<times> json) list"

text \<open>The prompt, an f-string; \<open>quoted\<close> puts a text between double quotes.\<close>

definition quoted :: "string \<Rightarrow> string" where
  "quoted s = [CHR 0x22] @ s @ [CHR 0x22]"

definition lines :: "string list \<Rightarrow> string" where
  "lines ls = concat (map (\<lambda>l. l @ [newline]) ls)"

definition summary_prompt :: "string \<Rightarrow> string" where
  "summary_prompt text = lines [
     [],
     ''    You are a legal document parser. Extract the following structured details'',
     ''    from the case text below. If a field is not present, return null.'',
     [],
     ''    Fields to extract (in JSON):'',
     ''    {'',
     ''      '' @ quoted ''Case_Name'' @ '': '' @ quoted [] @ '','',
     ''      '' @ quoted ''Parties'' @ '': {'',
     ''        '' @ quoted ''Petitioner'' @ '': '' @ quoted [] @ '','',
     ''        '' @ quoted ''Respondent'' @ '': '' @ quoted [],
     ''      },'',
     ''      '' @ quoted ''Court_Name'' @ '': '' @ quoted [] @ '','',
     ''      '' @ quoted ''Judge'' @ '': '' @ quoted [] @ '','',
     ''      '' @ quoted ''Sections_Invoked'' @ '': [],'',
     ''      '' @ quoted ''Facts'' @ '': '' @ quoted [] @ '','',
     ''      '' @ quoted ''Judgment'' @ '': '' @ quoted [] @ '','',
     ''      '' @ quoted ''Final_Order'' @ '': '' @ quoted [] @ '','',
     ''      '' @ quoted ''Date_of_Judgment'' @ '': '' @ quoted [],
     ''    }'',
     [],
     ''    Case Text:'',
     ''    '' @ text] @ ''    ''"

text \<open>\<^verbatim>\<open>\{.*\}\<close> under DOTALL.\<close>

definition brace_span :: regex where
  "brace_span = Cat [One (Lit CHR ''{''), Rep Dot 0 None, One (Lit CHR ''}'')]"

text \<open>
  The model and the JSON parser are capabilities: \<open>generate_content\<close> maps a prompt to
  the text of the response, \<open>json_loads\<close> maps a text to its value, and either may raise
  an exception, given by its message. Whatever is raised inside the \<^verbatim>\<open>try\<close> block
  becomes an \<^verbatim>\<open>HTTPException\<close> with status 500.
\<close>

definition extraction_failed :: "string \<Rightarrow> error" where
  "extraction_failed e = HTTPException 500 (''Gemini extraction failed: '' @ e)"

definition extract_structured_summary ::
  "(string \<Rightarrow> string + string) \<Rightarrow> (string \<Rightarrow> string + json) \<Rightarrow> string \<Rightarrow> error + json" where
  "extract_structured_summary generate_content json_loads text =
     (case generate_content (summary_prompt text) of
        Inl e \<Rightarrow> Inl (extraction_failed e)
      | Inr response_text \<Rightarrow>
          (case re_search False brace_span response_text of
             Some (t, g) \<Rightarrow>
               (case json_loads t of
                  Inl e \<Rightarrow> Inl (extraction_failed e)
                | Inr v \<Rightarrow> Inr v)
           | None \<Rightarrow> Inr (JObj [(''error'', JStr ''No structured JSON found'')])))"

section \<open>Upload and summarise\<close>


record capabilities =
  verify_id_token :: "string \<Rightarrow> string option"
  pdf_pages :: "string \<Rightarrow> string + string list"
  generate_content :: "string \<Rightarrow> string + string"
  json_loads :: "string \<Rightarrow> string + json"















section \<open>Auxiliary notions for the statements\<close>

text \<open>A text of the output list denotes a calendar day that starts after the clock reading.\<close>

definition future_text :: "datetime \<Rightarrow> string \<Rightarrow> bool" where
  "future_text now s \<longleftrightarrow> (\<exists>y mo dd. valid_date y mo dd \<and> now < (y, mo, dd, 0, 0, 0, 0) \<and>
      s = strftime ''%d %B %Y'' (y, mo, dd, 0, 0, 0, 0))"


text \<open>The status of an event is the one its date has at the clock reading.\<close>

definition status_ok :: "datetime \<Rightarrow> event \<Rightarrow> bool" where
  "status_ok now e \<longleftrightarrow> snd (snd (snd e)) = (if fst e < now then Completed else Upcoming)"

text \<open>
  What one sentence contributes to the timeline when no exception is raised: its event,
  or nothing when it has no date, no parsable date, or too short a text.
\<close>

definition event_of :: "datetime \<Rightarrow> string \<Rightarrow> event option" where
  "event_of now sentence =
     (case re_search True timeline_date_pattern sentence of
        None \<Rightarrow> None
      | Some (t, g) \<Rightarrow>
          (case timeline_date (strip t) of
             Inr (Some d) \<Rightarrow>
               if length (clean_event sentence) < 5 then None
               else Some (d, strip t, clean_event sentence, if d < now then Completed else Upcoming)
           | _ \<Rightarrow> None))"

text \<open>
  Following the specification: a text has a brace-delimited span when a closing brace
  comes after its first opening brace, and the span runs from the first opening brace
  through the last closing brace.
\<close>

definition has_span :: "string \<Rightarrow> bool" where
  "has_span s \<longleftrightarrow> CHR ''}'' \<in> set (dropWhile (\<lambda>c. c \<noteq> CHR ''{'') s)"

definition span :: "string \<Rightarrow> string" where
  "span s = rev (dropWhile (\<lambda>c. c \<noteq> CHR ''}'') (rev (dropWhile (\<lambda>c. c \<noteq> CHR ''{'') s)))"


text \<open>
  The response of the second scenario of the specification. Its dash, U+2014, lies
  outside the code points of \<^typ>\<open>char\<close> and is written as its UTF-8 bytes.
\<close>

definition example_response :: string where
  "example_response = ''Here is the data: {'' @ quoted ''Case_Name'' @ '': '' @ quoted ''X'' @ ''} '' @
     [CHR 0xE2, CHR 0x80, CHR 0x94] @ '' hope this helps''"




section \<open>Parsing never fails with anything but a ValueError\<close>

lemma strptime_error: "strptime s f = Inl e \<Longrightarrow> e = ValueError"
  by (auto simp: strptime_def split: option.splits list.splits if_splits prod.splits)

lemma strptime_date:
  "strptime s f = Inr d \<Longrightarrow> \<exists>y mo dd. d = (y, mo, dd, 0, 0, 0, 0) \<and> valid_date y mo dd"
  by (auto simp: strptime_def split: option.splits list.splits if_splits prod.splits)

lemma try_formats_total: "\<exists>r. try_formats s fs = Inr r"
proof (induction fs)
  case Nil
  show ?case by simp
next
  case (Cons f fs)
  show ?case
  proof (cases "strptime s f")
    case (Inl e)
    then have "e = ValueError" by (rule strptime_error)
    with Inl Cons show ?thesis by simp
  next
    case (Inr d)
    then show ?thesis by simp
  qed
qed

lemma try_formats_date:
  "try_formats s fs = Inr (Some d) \<Longrightarrow> \<exists>y mo dd. d = (y, mo, dd, 0, 0, 0, 0) \<and> valid_date y mo dd"
proof (induction fs)
  case Nil
  then show ?case by simp
next
  case (Cons f fs)
  show ?case
  proof (cases "strptime s f")
    case (Inl e)
    then have "e = ValueError" by (rule strptime_error)
    with Inl Cons show ?thesis by simp
  next
    case (Inr d')
    with Cons.prems have "d' = d" by simp
    with Inr show ?thesis by (auto dest: strptime_date)
  qed
qed

lemma parse_match_total: "\<exists>r. parse_match s = Inr r"
  by (simp add: parse_match_def try_formats_total)

lemma parse_match_date:
  "parse_match s = Inr (Some d) \<Longrightarrow> \<exists>y mo dd. d = (y, mo, dd, 0, 0, 0, 0) \<and> valid_date y mo dd"
  by (simp add: parse_match_def try_formats_date)


lemma collect_dates_future:
  "collect_dates now ms acc = Inr found \<Longrightarrow> \<forall>s\<in>set acc. future_text now s \<Longrightarrow>
   \<forall>s\<in>set found. future_text now s"
proof (induction ms arbitrary: acc)
  case Nil
  then show ?case by simp
next
  case (Cons mt ms)
  obtain r where r: "parse_match (strip mt) = Inr r" using parse_match_total by blast
  show ?case
  proof (cases r)
    case None
    with r Cons show ?thesis by simp
  next
    case (Some d)
    show ?thesis
    proof (cases "now < d")
      case False
      with r Some Cons show ?thesis by simp
    next
      case True
      from parse_match_date r Some obtain y mo dd
        where d: "d = (y, mo, dd, 0, 0, 0, 0)" "valid_date y mo dd" by blast
      with True have "future_text now (strftime ''%d %B %Y'' d)" unfolding future_text_def by blast
      with Cons.prems(2) have "\<forall>s\<in>set (acc @ [strftime ''%d %B %Y'' d]). future_text now s" by simp
      moreover from Cons.prems(1) r Some True
      have "collect_dates now ms (acc @ [strftime ''%d %B %Y'' d]) = Inr found" by simp
      ultimately show ?thesis by (rule Cons.IH[rotated])
    qed
  qed
qed



section \<open>The groups a format captures\<close>






section \<open>The status of the collected events\<close>

lemma collect_events_status:
  "collect_events now ss acc = Inr evs \<Longrightarrow> \<forall>e\<in>set acc. status_ok now e \<Longrightarrow>
   \<forall>e\<in>set evs. status_ok now e"
proof (induction ss arbitrary: acc)
  case Nil
  then show ?case by simp
next
  case (Cons s ss)
  from Cons.prems(1) consider
      (skip) "collect_events now ss acc = Inr evs"
    | (add) d ds ev where
        "collect_events now ss (acc @ [(d, ds, ev, if d < now then Completed else Upcoming)]) = Inr evs"
    by (auto simp: Let_def split: option.splits sum.splits if_splits prod.splits)
  then show ?case
  proof cases
    case skip
    with Cons show ?thesis by blast
  next
    case add
    have "\<forall>e\<in>set (acc @ [(d, ds, ev, if d < now then Completed else Upcoming)]). status_ok now e"
      using Cons.prems(2) by (simp add: status_ok_def)
    with add Cons.IH show ?thesis by blast
  qed
qed

section \<open>The collected events are those of the sentences, in their order\<close>

lemma collect_events_in_order:
  "collect_events now ss acc = Inr found \<Longrightarrow> found = acc @ List.map_filter (event_of now) ss"
proof (induction ss arbitrary: acc)
  case Nil
  then show ?case by (simp add: List.map_filter_simps)
next
  case (Cons s ss)
  show ?case
  proof (cases "re_search True timeline_date_pattern s")
    case None
    then have "event_of now s = None" by (simp add: event_of_def)
    moreover from Cons.prems None have "collect_events now ss acc = Inr found" by simp
    ultimately show ?thesis using Cons.IH by (simp add: List.map_filter_simps)
  next
    case (Some tg)
    obtain t g where tg: "tg = (t, g)" by (cases tg)
    show ?thesis
    proof (cases "timeline_date (strip t)")
      case (Inl e)
      with Cons.prems Some tg show ?thesis by simp
    next
      case (Inr r)
      show ?thesis
      proof (cases r)
        case None
        with Some tg Inr have "event_of now s = None" by (simp add: event_of_def)
        moreover from Cons.prems Some tg Inr None have "collect_events now ss acc = Inr found" by simp
        ultimately show ?thesis using Cons.IH by (simp add: List.map_filter_simps)
      next
        case d: (Some d)
        show ?thesis
        proof (cases "length (clean_event s) < 5")
          case True
          with Some tg Inr d have "event_of now s = None" by (simp add: event_of_def)
          moreover from Cons.prems Some tg Inr d True have "collect_events now ss acc = Inr found"
            by simp
          ultimately show ?thesis using Cons.IH by (simp add: List.map_filter_simps)
        next
          case False
          let ?e = "(d, strip t, clean_event s, if d < now then Completed else Upcoming)"
          from Some tg Inr d False have "event_of now s = Some ?e" by (simp add: event_of_def)
          moreover from Cons.prems Some tg Inr d False
          have "collect_events now ss (acc @ [?e]) = Inr found" by (simp add: Let_def)
          ultimately show ?thesis using Cons.IH[of "acc @ [?e]"] by (simp add: List.map_filter_simps)
        qed
      qed
    qed
  qed
qed

lemma tokens_pieces:
  "concat (map (\<lambda>(gap, mt). gap @ (case mt of None \<Rightarrow> [] | Some x \<Rightarrow> fst x)) (tokens ic r bef gap s)) =
     rev gap @ s"
proof (induction ic r bef gap s rule: tokens.induct)
  case (1 ic r bef gap)
  show ?case by simp
next
  case (2 ic r bef gap c cs)
  show ?case
  proof (cases "match_at ic r bef (c # cs)")
    case None
    with 2(1) show ?thesis by simp
  next
    case (Some ng)
    obtain n g where ng: "ng = (n, g)" by (cases ng)
    show ?thesis
    proof (cases n)
      case 0
      with 2(2) Some ng show ?thesis by simp
    next
      case (Suc k)
      with 2(3) Some ng show ?thesis by simp
    qed
  qed
qed

lemma separators_back: "re_sub ic r fst s = s"
  using tokens_pieces[of ic r "[]" "[]" s] by (simp add: re_sub_def)

section \<open>The span found by the search\<close>

lemma close_none:
  "CHR ''}'' \<notin> set xs \<Longrightarrow>
   concat (map (m_cat False [One (Lit CHR ''}'')]) (map (\<lambda>(b, r). (b, r, g)) (rep (atom_ok False Dot) 0 None k bef xs))) = []"
  by (induction xs arbitrary: k bef) auto

lemma close_last:
  "CHR ''}'' \<notin> set q \<Longrightarrow>
   \<exists>rest. concat (map (m_cat False [One (Lit CHR ''}'')])
       (map (\<lambda>(b, r). (b, r, g)) (rep (atom_ok False Dot) 0 None k bef (p @ CHR ''}'' # q)))) =
     (CHR ''}'' # rev p @ bef, q, g) # rest"
proof (induction p arbitrary: k bef)
  case Nil
  have 1: "rep (atom_ok False Dot) 0 None k bef (CHR ''}'' # q) =
      rep (atom_ok False Dot) 0 None (Suc k) (CHR ''}'' # bef) q @ [(bef, CHR ''}'' # q)]"
    by simp
  show ?case unfolding append_Nil 1 map_append concat_append close_none[OF Nil] by simp
next
  case (Cons c p)
  from Cons.IH[OF Cons.prems, of "Suc k" "c # bef"] show ?case by auto
qed

lemma brace_states:
  "m False brace_span (bef, c # xs, []) =
     (if c = CHR ''{''
      then concat (map (m_cat False [One (Lit CHR ''}'')])
             (map (\<lambda>(b, r). (b, r, [])) (rep (atom_ok False Dot) 0 None 0 (c # bef) xs)))
      else [])"
  by (simp add: brace_span_def)

lemma match_open_other:
  "c \<noteq> CHR ''{'' \<Longrightarrow> match_at False brace_span bef (c # cs) = None"
  unfolding match_at_def brace_states by simp

lemma match_open_none:
  assumes "CHR ''}'' \<notin> set xs"
  shows "match_at False brace_span bef (c # xs) = None"
  unfolding match_at_def brace_states close_none[OF assms] by simp

lemma match_open_last:
  assumes "CHR ''}'' \<notin> set q"
  shows "match_at False brace_span bef (CHR ''{'' # p @ CHR ''}'' # q) = Some (Suc (Suc (length p)), [])"
proof -
  from close_last[OF assms, of "[]" 0 "CHR ''{'' # bef" p] obtain rest where
    eq: "concat (map (m_cat False [One (Lit CHR ''}'')])
       (map (\<lambda>(b, r). (b, r, [])) (rep (atom_ok False Dot) 0 None 0 (CHR ''{'' # bef) (p @ CHR ''}'' # q)))) =
     (CHR ''}'' # rev p @ CHR ''{'' # bef, q, []) # rest" by blast
  show ?thesis unfolding match_at_def brace_states if_P[OF refl] eq by simp
qed

lemma search_none:
  "CHR ''}'' \<notin> set xs \<Longrightarrow> search_from False brace_span bef xs = None"
  by (induction xs arbitrary: bef) (simp_all add: match_open_none)

lemma search_span:
  "search_from False brace_span bef s = (if has_span s then Some (span s, []) else None)"
proof (induction s arbitrary: bef)
  case Nil
  show ?case by (simp add: has_span_def)
next
  case (Cons c cs)
  show ?case
  proof (cases "c = CHR ''{''")
    case False
    then have "has_span (c # cs) = has_span cs" "span (c # cs) = span cs"
      by (simp_all add: has_span_def span_def)
    with False Cons show ?thesis by (simp add: match_open_other)
  next
    case True
    show ?thesis
    proof (cases "CHR ''}'' \<in> set cs")
      case False
      with True have "\<not> has_span (c # cs)" by (simp add: has_span_def)
      with False show ?thesis by (simp add: match_open_none search_none)
    next
      case in_cs: True
      then obtain p q where cs: "cs = p @ CHR ''}'' # q" and q: "CHR ''}'' \<notin> set q"
        by (auto dest: split_list_last)
      have hs: "has_span (c # cs)" using True in_cs by (simp add: has_span_def)
      have "dropWhile (\<lambda>c. c \<noteq> CHR ''}'') (rev q @ CHR ''}'' # rev p @ [CHR ''{'']) =
            dropWhile (\<lambda>c. c \<noteq> CHR ''}'') (CHR ''}'' # rev p @ [CHR ''{''])"
        using q by (intro dropWhile_append2) auto
      then have sp: "span (c # cs) = CHR ''{'' # p @ [CHR ''}'']"
        using True cs by (simp add: span_def)
      from match_open_last[OF q, of bef p] True cs hs sp show ?thesis by simp
    qed
  qed
qed

section \<open>Failures of one document\<close>

















section \<open>Evaluation of the matcher on concrete texts\<close>

lemma matches_october_21: "findall True date_pattern ''October 21, 2099'' = [''October 21, 2099'']"
  by code_simp

lemma parse_october_21: "parse_match ''October 21, 2099'' = Inr None"
  by code_simp




lemma dates_two:
  "extract_future_dates ''15 March 2099, 01 April 2100'' (2025, 1, 1, 0, 0, 0, 0) =
     Inr ([''01 April 2100'', ''15 March 2099''], 2)"
  by code_simp

lemma denotes_april: "strptime ''01 April 2100'' ''%d %B %Y'' = Inr (2100, 4, 1, 0, 0, 0, 0)"
  by code_simp

lemma denotes_march: "strptime ''15 March 2099'' ''%d %B %Y'' = Inr (2099, 3, 15, 0, 0, 0, 0)"
  by code_simp




lemma events_three:
  "timeline_events ''Reply 5 May 2030. Filed 3 May 2020. Order 5 May 2030.'' (2025, 1, 1, 0, 0, 0, 0) =
     Inr [((2020, 5, 3, 0, 0, 0, 0), ''3 May 2020'', ''Filed .'', Completed),
          ((2030, 5, 5, 0, 0, 0, 0), ''5 May 2030'', ''Reply .'', Upcoming),
          ((2030, 5, 5, 0, 0, 0, 0), ''5 May 2030'', ''Order .'', Upcoming)]"
  by code_simp






section \<open>Claims\<close>

text \<open>
  C3. A date written month first, as in "October 21, 2099", is found by the date pattern,
  but no format parses it: the commas are removed before \<^verbatim>\<open>strptime\<close> is called, and
  the only format for this shape, \<^verbatim>\<open>"%B %d, %Y"\<close>, requires the comma. The date lies
  after the clock reading and is not returned.
\<close>

theorem month_day_year_dropped:
  "extract_future_dates ''October 21, 2099'' (2025, 1, 1, 0, 0, 0, 0) = Inr ([], 0)"
  by (simp add: extract_future_dates_def matches_october_21 parse_october_21 strip_def is_space_def code_def)

text \<open>
  C2, as the code has it. Every text of the returned list denotes a day that starts after
  the clock reading, no text occurs twice, and the count is the length of the list. The
  list is in ascending order of the texts themselves (code points compared left to
  right), which is what \<^verbatim>\<open>sorted\<close> does on strings.
\<close>

theorem future_dates_sorted_as_text:
  "extract_future_dates text now = Inr (ds, n) \<Longrightarrow>
     distinct ds \<and> sorted ds \<and> n = length ds \<and> (\<forall>s\<in>set ds. future_text now s)"
  by (auto simp: extract_future_dates_def Let_def split: sum.splits dest: collect_dates_future)

theorem future_dates_sorted_as_text_witness:
  "distinct [''01 April 2100'', ''15 March 2099''] \<and> sorted [''01 April 2100'', ''15 March 2099''] \<and>
   future_text (2025, 1, 1, 0, 0, 0, 0) ''01 April 2100'' \<and>
   future_text (2025, 1, 1, 0, 0, 0, 0) ''15 March 2099''"
  using future_dates_sorted_as_text [OF dates_two] by simp

text \<open>
  C2 as stated fails: the order is not the order of the dates. The list for two dates of
  1 April 2100 and 15 March 2099 starts with the later one, because "01" sorts before "15".
\<close>

theorem future_dates_not_in_date_order:
  "extract_future_dates ''15 March 2099, 01 April 2100'' (2025, 1, 1, 0, 0, 0, 0) =
     Inr ([''01 April 2100'', ''15 March 2099''], 2) \<and>
   strptime ''01 April 2100'' ''%d %B %Y'' = Inr (2100, 4, 1, 0, 0, 0, 0) \<and>
   strptime ''15 March 2099'' ''%d %B %Y'' = Inr (2099, 3, 15, 0, 0, 0, 0) \<and>
   \<not> ((2100, 4, 1, 0, 0, 0, 0) \<le> ((2099, 3, 15, 0, 0, 0, 0) :: datetime))"
proof (intro conjI)
  show "extract_future_dates ''15 March 2099, 01 April 2100'' (2025, 1, 1, 0, 0, 0, 0) =
     Inr ([''01 April 2100'', ''15 March 2099''], 2)" by (rule dates_two)
  show "strptime ''01 April 2100'' ''%d %B %Y'' = Inr (2100, 4, 1, 0, 0, 0, 0)"
    by (rule denotes_april)
  show "strptime ''15 March 2099'' ''%d %B %Y'' = Inr (2099, 3, 15, 0, 0, 0, 0)"
    by (rule denotes_march)
  show "\<not> ((2100, 4, 1, 0, 0, 0, 0) \<le> ((2099, 3, 15, 0, 0, 0, 0) :: datetime))"
    by simp
qed

text \<open>
  C7. The fallback of the timeline for a month and a year calls \<^verbatim>\<open>strptime\<close> outside
  of any handler. For the year 0000 the call raises a \<^verbatim>\<open>ValueError\<close>, which leaves
  \<^verbatim>\<open>generate_case_timeline\<close>, whatever the clock reading.
\<close>

theorem timeline_raises_on_year_zero:
  "generate_case_timeline ''Held in March 0000 here.'' now = Inl ValueError"
  by code_simp

text \<open>
  C5. A sentence whose date is a month and a year is given the first day of the month:
  the format \<^verbatim>\<open>"%B %Y"\<close> parses it before the fallback to the 15th is reached. On
  10 March 2099 the event of "March 2099" is therefore already Completed.
\<close>

theorem timeline_month_year_is_first_day:
  "timeline_events ''Trial set for March 2099 in Delhi.'' (2099, 3, 10, 12, 0, 0, 0) =
     Inr [((2099, 3, 1, 0, 0, 0, 0), ''March 2099'', ''Trial set for in Delhi.'', Completed)]"
  by code_simp




text \<open>
  C6. When \<^verbatim>\<open>generate_case_timeline\<close> returns, the rows of its table are the events
  in ascending order of their parsed dates. The events are those of the sentences of the
  text, one for each sentence that has one, collected in the order of the sentences; the
  sentences are the pieces of the text between the sentence breaks, in the order of the
  text (with each break put back after its piece they are the text again). Events of one
  date keep that order: the sort is stable. The status of every event is Completed
  exactly when its date is strictly earlier than the clock reading, and Upcoming
  otherwise; and the table is the header followed by one row for each event, in the
  sorted order.
\<close>

theorem timeline_sorted_stable_status:
  assumes "timeline_events text now = Inr evs"
  shows "sorted (map fst evs) \<and> (\<forall>e\<in>set evs. status_ok now e) \<and>
     collect_events now (re_split False sentence_break text) [] =
       Inr (List.map_filter (event_of now) (re_split False sentence_break text)) \<and>
     length evs = length (List.map_filter (event_of now) (re_split False sentence_break text)) \<and>
     (\<forall>d. filter (\<lambda>e. fst e = d) evs =
          filter (\<lambda>e. fst e = d)
            (List.map_filter (event_of now) (re_split False sentence_break text))) \<and>
     re_sub False sentence_break fst text = text \<and>
     generate_case_timeline text now =
       Inr (if evs = [] then ''No timeline events detected.''
            else table_header @ concat (map table_row evs))"
proof -
  let ?found = "List.map_filter (event_of now) (re_split False sentence_break text)"
  from assms obtain found where
    found: "collect_events now (re_split False sentence_break text) [] = Inr found"
    and evs: "evs = sort_key fst found"
    by (auto simp: timeline_events_def split: sum.splits)
  have eq: "found = ?found" using collect_events_in_order[OF found] by simp
  from collect_events_status[OF found] have "\<forall>e\<in>set found. status_ok now e" by simp
  with evs have 1: "\<forall>e\<in>set evs. status_ok now e" by simp
  have 2: "sorted (map fst evs)" unfolding evs by (rule sorted_sort_key)
  have 3: "\<forall>d. filter (\<lambda>e. fst e = d) evs = filter (\<lambda>e. fst e = d) ?found"
    unfolding evs eq[symmetric] by (simp add: sort_key_stable)
  have 4: "length evs = length ?found" unfolding evs eq[symmetric] by simp
  have 5: "collect_events now (re_split False sentence_break text) [] = Inr ?found"
    using found eq by simp
  have 6: "re_sub False sentence_break fst text = text" by (rule separators_back)
  have 7: "generate_case_timeline text now =
       Inr (if evs = [] then ''No timeline events detected.''
            else table_header @ concat (map table_row evs))"
    using assms by (simp add: generate_case_timeline_def)
  from 2 1 5 4 3 6 7 show ?thesis by (intro conjI)
qed

theorem timeline_sorted_stable_status_witness:
  "status_ok (2025, 1, 1, 0, 0, 0, 0) ((2020, 5, 3, 0, 0, 0, 0), ''3 May 2020'', ''Filed .'', Completed) \<and>
   status_ok (2025, 1, 1, 0, 0, 0, 0) ((2030, 5, 5, 0, 0, 0, 0), ''5 May 2030'', ''Reply .'', Upcoming) \<and>
   filter (\<lambda>e. fst e = (2030, 5, 5, 0, 0, 0, 0))
     (List.map_filter (event_of (2025, 1, 1, 0, 0, 0, 0))
        (re_split False sentence_break ''Reply 5 May 2030. Filed 3 May 2020. Order 5 May 2030.'')) =
     [((2030, 5, 5, 0, 0, 0, 0), ''5 May 2030'', ''Reply .'', Upcoming),
      ((2030, 5, 5, 0, 0, 0, 0), ''5 May 2030'', ''Order .'', Upcoming)] \<and>
   generate_case_timeline ''Reply 5 May 2030. Filed 3 May 2020. Order 5 May 2030.''
       (2025, 1, 1, 0, 0, 0, 0) =
     Inr (table_header @
          table_row ((2020, 5, 3, 0, 0, 0, 0), ''3 May 2020'', ''Filed .'', Completed) @
          table_row ((2030, 5, 5, 0, 0, 0, 0), ''5 May 2030'', ''Reply .'', Upcoming) @
          table_row ((2030, 5, 5, 0, 0, 0, 0), ''5 May 2030'', ''Order .'', Upcoming))"
proof -
  let ?evs = "[((2020, 5, 3, 0, 0, 0, 0), ''3 May 2020'', ''Filed .'', Completed),
          ((2030, 5, 5, 0, 0, 0, 0), ''5 May 2030'', ''Reply .'', Upcoming),
          ((2030, 5, 5, 0, 0, 0, 0), ''5 May 2030'', ''Order .'', Upcoming)] :: event list"
  let ?now = "(2025, 1, 1, 0, 0, 0, 0) :: datetime"
  let ?text = "''Reply 5 May 2030. Filed 3 May 2020. Order 5 May 2030.''"
  let ?found = "List.map_filter (event_of ?now) (re_split False sentence_break ?text)"
  note all = timeline_sorted_stable_status [OF events_three]
  from all have ok: "\<forall>e\<in>set ?evs. status_ok ?now e" by (elim conjE)
  from all have stable: "\<forall>d. filter (\<lambda>e. fst e = d) ?evs = filter (\<lambda>e. fst e = d) ?found"
    by (elim conjE)
  from all have table: "generate_case_timeline ?text ?now =
       Inr (if ?evs = [] then ''No timeline events detected.''
            else table_header @ concat (map table_row ?evs))"
    by (elim conjE)
  from stable have "filter (\<lambda>e. fst e = (2030, 5, 5, 0, 0, 0, 0)) ?evs =
      filter (\<lambda>e. fst e = (2030, 5, 5, 0, 0, 0, 0)) ?found" by (rule spec)
  then have "filter (\<lambda>e. fst e = (2030, 5, 5, 0, 0, 0, 0)) ?found =
      filter (\<lambda>e. fst e = (2030, 5, 5, 0, 0, 0, 0)) ?evs" by (rule sym)
  also have "\<dots> = [((2030, 5, 5, 0, 0, 0, 0), ''5 May 2030'', ''Reply .'', Upcoming),
      ((2030, 5, 5, 0, 0, 0, 0), ''5 May 2030'', ''Order .'', Upcoming)]" by simp
  finally have ties: "filter (\<lambda>e. fst e = (2030, 5, 5, 0, 0, 0, 0)) ?found =
     [((2030, 5, 5, 0, 0, 0, 0), ''5 May 2030'', ''Reply .'', Upcoming),
      ((2030, 5, 5, 0, 0, 0, 0), ''5 May 2030'', ''Order .'', Upcoming)]" .
  from ok have s1: "status_ok ?now ((2020, 5, 3, 0, 0, 0, 0), ''3 May 2020'', ''Filed .'', Completed)"
    by simp
  from ok have s2: "status_ok ?now ((2030, 5, 5, 0, 0, 0, 0), ''5 May 2030'', ''Reply .'', Upcoming)"
    by simp
  from table have t: "generate_case_timeline ?text ?now =
     Inr (table_header @
          table_row ((2020, 5, 3, 0, 0, 0, 0), ''3 May 2020'', ''Filed .'', Completed) @
          table_row ((2030, 5, 5, 0, 0, 0, 0), ''5 May 2030'', ''Reply .'', Upcoming) @
          table_row ((2030, 5, 5, 0, 0, 0, 0), ''5 May 2030'', ''Order .'', Upcoming))"
    by (simp del: table_row.simps)
  from s1 s2 ties t show ?thesis by (intro conjI)
qed

text \<open>
  C8. \<^verbatim>\<open>extract_structured_summary\<close> searches the response for the span from the
  first opening brace through the last closing brace. When there is none, the result is
  the object \<^verbatim>\<open>{"error": "No structured JSON found"}\<close> and nothing is raised; when
  there is one, the result is what \<^verbatim>\<open>json.loads\<close> makes of the span alone, the prose
  around it left out. The plain sentence has no span; the span of the response of the
  specification's scenario is \<^verbatim>\<open>{"Case_Name": "X"}\<close>.
\<close>

theorem structured_summary_isolates_span:
  "extract_structured_summary generate loads text =
     (case generate (summary_prompt text) of
        Inl e \<Rightarrow> Inl (extraction_failed e)
      | Inr response \<Rightarrow>
          if has_span response then
            (case loads (span response) of
               Inl e \<Rightarrow> Inl (extraction_failed e)
             | Inr v \<Rightarrow> Inr v)
          else Inr (JObj [(''error'', JStr ''No structured JSON found'')])) \<and>
   \<not> has_span ''The document could not be parsed.'' \<and>
   has_span example_response \<and>
   span example_response = ''{'' @ quoted ''Case_Name'' @ '': '' @ quoted ''X'' @ ''}''"
proof (intro conjI)
  show "extract_structured_summary generate loads text =
     (case generate (summary_prompt text) of
        Inl e \<Rightarrow> Inl (extraction_failed e)
      | Inr response \<Rightarrow>
          if has_span response then
            (case loads (span response) of
               Inl e \<Rightarrow> Inl (extraction_failed e)
             | Inr v \<Rightarrow> Inr v)
          else Inr (JObj [(''error'', JStr ''No structured JSON found'')]))"
    by (simp add: extract_structured_summary_def re_search_def search_span split: sum.splits)
  show "\<not> has_span ''The document could not be parsed.''"
    by (simp add: has_span_def)
  show "has_span example_response"
    by (simp add: has_span_def example_response_def quoted_def)
  show "span example_response = ''{'' @ quoted ''Case_Name'' @ '': '' @ quoted ''X'' @ ''}''"
    by (simp add: span_def example_response_def quoted_def)
qed




end
